theory Spec2Isabelle
  imports Main "HOL-Library.Word" "HOL-Library.Stream"
begin

unbundle bit_operations_syntax

section \<open>Data model of device.go\<close>

text \<open>
  A Go string is modelled by the sequence of runes that ranging over it yields (Unicode
  code points; a byte that is not valid UTF-8 yields U+FFFD, which is not white space
  and not a newline). The library functions used by the source (\<open>strings.TrimSpace\<close>,
  \<open>strings.Fields\<close>, \<open>strings.Split\<close>, \<open>strings.Join\<close>, \<open>fmt.Sprintf\<close> with
  \<open>%s\<close> and \<open>%d\<close>) are all defined rune by rune.
\<close>

type_synonym rune = nat
type_synonym gostring = "rune list"

definition str :: "string \<Rightarrow> gostring" where
  "str s = map of_char s"

text \<open>
  \<open>time.Time\<close> is a struct of three words (wall clock, monotonic extension, location
  pointer); Go's \<open>==\<close> on structs compares them field by field, and the zero value has
  all three zero.
\<close>

record gotime =
  wall :: "64 word"
  ext :: "64 word"
  loc :: nat

definition zero_time :: gotime where
  "zero_time = \<lparr>wall = 0, ext = 0, loc = 0\<rparr>"

text \<open>\<open>os.FileMode\<close> is a \<open>uint32\<close>.\<close>

type_synonym FileMode = "32 word"

record DeviceFileInfo =
  Name :: gostring
  Mode :: FileMode
  Size :: "32 word"
  LastModified :: gotime

text \<open>The zero value \<open>DeviceFileInfo{}\<close>.\<close>

definition zero_DeviceFileInfo :: DeviceFileInfo where
  "zero_DeviceFileInfo = \<lparr>Name = [], Mode = 0, Size = 0, LastModified = zero_time\<rparr>"

text \<open>\<open>func (info DeviceFileInfo) IsDir() bool\<close>\<close>

definition IsDir :: "DeviceFileInfo \<Rightarrow> bool" where
  "IsDir info = ((Mode info AND push_bit 14 1) = push_bit 14 1)"

text \<open>\<open>const DefaultFileMode = os.FileMode(0664)\<close> (octal).\<close>

definition DefaultFileMode :: FileMode where
  "DefaultFileMode = 436"

record DeviceForward =
  Serial :: gostring
  Local :: gostring
  Remote :: gostring

section \<open>The library functions the source calls\<close>

text \<open>\<open>unicode.IsSpace\<close>: the Latin-1 cases and the \<open>White_Space\<close> table.\<close>

definition isSpace :: "rune \<Rightarrow> bool" where
  "isSpace r =
     (r = 9 \<or> r = 10 \<or> r = 11 \<or> r = 12 \<or> r = 13 \<or> r = 32 \<or> r = 133 \<or> r = 160
      \<or> r = 5760 \<or> (8192 \<le> r \<and> r \<le> 8202) \<or> r = 8232 \<or> r = 8233 \<or> r = 8239
      \<or> r = 8287 \<or> r = 12288)"

text \<open>\<open>strings.TrimSpace\<close>: leading and trailing white space removed.\<close>

definition TrimSpace :: "gostring \<Rightarrow> gostring" where
  "TrimSpace s = rev (dropWhile isSpace (rev (dropWhile isSpace s)))"

text \<open>
  \<open>strings.Fields\<close>: the maximal runs of runes that are not white space, in order.
\<close>

function Fields :: "gostring \<Rightarrow> gostring list" where
  "Fields s =
     (case dropWhile isSpace s of
        [] \<Rightarrow> []
      | c # t \<Rightarrow> (c # takeWhile (\<lambda>r. \<not> isSpace r) t) # Fields (dropWhile (\<lambda>r. \<not> isSpace r) t))"
  by pat_completeness auto
termination
proof (relation "measure length")
  show "wf (measure length)"
    by simp
next
  fix s :: gostring and c t
  assume h: "dropWhile isSpace s = c # t"
  have "length (dropWhile (\<lambda>r. \<not> isSpace r) t) \<le> length t"
    by (rule length_dropWhile_le)
  moreover have "length (c # t) \<le> length s"
    using length_dropWhile_le [of isSpace s] by (simp only: h)
  ultimately show "(dropWhile (\<lambda>r. \<not> isSpace r) t, s) \<in> measure length"
    by simp
qed

declare Fields.simps [simp del]

text \<open>
  \<open>strings.Split(s, sep)\<close> for a separator of one rune (the source splits at
  \<open>"\n"\<close>): the pieces between the separators, one more than there are separators.
\<close>

fun Split :: "gostring \<Rightarrow> rune \<Rightarrow> gostring list" where
  "Split [] sep = [[]]"
| "Split (x # xs) sep =
     (if x = sep then [] # Split xs sep
      else (case Split xs sep of
              [] \<Rightarrow> [[x]]
            | l # ls \<Rightarrow> (x # l) # ls))"

text \<open>\<open>strings.Join(elems, sep)\<close>\<close>

fun Join :: "gostring list \<Rightarrow> gostring \<Rightarrow> gostring" where
  "Join [] sep = []"
| "Join [e] sep = e"
| "Join (e # es) sep = e @ sep @ Join es sep"

text \<open>The verb \<open>%d\<close> of \<open>fmt.Sprintf\<close>: decimal digits, a minus sign when negative.\<close>

function decimal :: "nat \<Rightarrow> gostring" where
  "decimal n = (if n < 10 then [48 + n] else decimal (n div 10) @ [48 + n mod 10])"
  by pat_completeness auto
termination
  by (relation "measure id") auto

declare decimal.simps [simp del]

definition fmt_d :: "int \<Rightarrow> gostring" where
  "fmt_d i = (if i < 0 then 45 # decimal (nat (- i)) else decimal (nat i))"

section \<open>The transport layer, as device.go sees it\<close>

text \<open>
  An error value is identified by its message (\<open>errors.New\<close>, and whatever the transport
  layer returns).
\<close>

datatype error = Error gostring

type_synonym bytes = "8 word list"

text \<open>
  The files that implement \<open>transport\<close>, \<open>syncTransport\<close> and \<open>shellTransport\<close> are
  not among the sources. Each of their operations is an opaque call here: the call is
  logged with its arguments, and it succeeds or fails as the environment's next reply
  says. A transport value holds its socket (\<open>None\<close> is the nil socket of the zero value
  \<open>transport{}\<close>).
\<close>

datatype transport = Transport (sock: "nat option")
datatype syncTransport = SyncTransport (sync_sock: "nat option")
datatype shellTransport = ShellTransport (shell_sock: "nat option")

datatype event =
    Ev_newTransport gostring
  | Ev_Send gostring
  | Ev_VerifyResponse
  | Ev_ReadBytesAll
  | Ev_CreateSyncTransport
  | Ev_CreateShellTransport
  | Ev_Close
  | Ev_SyncSend gostring gostring
  | Ev_ReadDirectoryEntry
  | Ev_SendStream bytes
  | Ev_SendStatus gostring "32 word"
  | Ev_VerifyStatus
  | Ev_SyncClose
  | Ev_ShellClose

text \<open>
  The world outside the program: \<open>replies\<close> are the outcomes of the coming calls
  (\<open>None\<close> is success), \<open>calls\<close> is the log of the calls made so far, \<open>socks\<close> says of
  every socket opened so far whether it is still open, \<open>rx\<close> is what \<open>ReadBytesAll\<close>
  will deliver (\<open>None\<close> is a nil slice; a byte slice that the source only converts to a
  string is represented by that string) and \<open>dents\<close> are the results that the coming
  calls of \<open>ReadDirectoryEntry\<close> will deliver.
\<close>

record world =
  replies :: "error option stream"
  calls :: "event list"
  socks :: "bool list"
  rx :: "gostring option"
  dents :: "(error + DeviceFileInfo) list"

definition io_call :: "event \<Rightarrow> world \<Rightarrow> error option \<times> world" where
  "io_call ev w = (shd (replies w), w\<lparr>replies := stl (replies w), calls := calls w @ [ev]\<rparr>)"

definition newTransport :: "gostring \<Rightarrow> world \<Rightarrow> (error + transport) \<times> world" where
  "newTransport address w =
     (case io_call (Ev_newTransport address) w of
        (Some err, w') \<Rightarrow> (Inl err, w')
      | (None, w') \<Rightarrow>
          (Inr (Transport (Some (length (socks w')))), w'\<lparr>socks := socks w' @ [True]\<rparr>))"

definition transport_Send :: "transport \<Rightarrow> gostring \<Rightarrow> world \<Rightarrow> error option \<times> world" where
  "transport_Send tp command w = io_call (Ev_Send command) w"

definition transport_VerifyResponse :: "transport \<Rightarrow> world \<Rightarrow> error option \<times> world" where
  "transport_VerifyResponse tp w = io_call Ev_VerifyResponse w"

definition transport_ReadBytesAll ::
  "transport \<Rightarrow> world \<Rightarrow> (gostring option \<times> error option) \<times> world" where
  "transport_ReadBytesAll tp w =
     (case io_call Ev_ReadBytesAll w of (err, w') \<Rightarrow> ((rx w', err), w'))"

definition transport_CreateSyncTransport ::
  "transport \<Rightarrow> world \<Rightarrow> (error + syncTransport) \<times> world" where
  "transport_CreateSyncTransport tp w =
     (case io_call Ev_CreateSyncTransport w of
        (Some err, w') \<Rightarrow> (Inl err, w')
      | (None, w') \<Rightarrow> (Inr (SyncTransport (sock tp)), w'))"

definition transport_CreateShellTransport ::
  "transport \<Rightarrow> world \<Rightarrow> (error + shellTransport) \<times> world" where
  "transport_CreateShellTransport tp w =
     (case io_call Ev_CreateShellTransport w of
        (Some err, w') \<Rightarrow> (Inl err, w')
      | (None, w') \<Rightarrow> (Inr (ShellTransport (sock tp)), w'))"

text \<open>
  Modelled from the spec: \<open>Close()\<close> of \<open>transport\<close>, \<open>syncTransport\<close> and
  \<open>shellTransport\<close>, whose code is not among the sources. "Close(): releases the
  underlying socket; idempotent -- calling twice must not fail or panic/crash", and it
  "never re-sends protocol bytes". The first call on an open socket releases it and
  returns what the operating system answers; a call on a socket that is nil or already
  released does nothing and returns no error. Every call is logged.
\<close>

definition close_sock :: "event \<Rightarrow> nat option \<Rightarrow> world \<Rightarrow> error option \<times> world" where
  "close_sock ev so w =
     (case so of
        None \<Rightarrow> (None, w\<lparr>calls := calls w @ [ev]\<rparr>)
      | Some i \<Rightarrow>
          (if i < length (socks w) \<and> socks w ! i
           then (case io_call ev w of (err, w') \<Rightarrow> (err, w'\<lparr>socks := (socks w')[i := False]\<rparr>))
           else (None, w\<lparr>calls := calls w @ [ev]\<rparr>)))"

definition transport_Close :: "transport \<Rightarrow> world \<Rightarrow> error option \<times> world" where
  "transport_Close tp w = close_sock Ev_Close (sock tp) w"

definition syncTransport_Close :: "syncTransport \<Rightarrow> world \<Rightarrow> error option \<times> world" where
  "syncTransport_Close sync w = close_sock Ev_SyncClose (sync_sock sync) w"

definition shellTransport_Close :: "shellTransport \<Rightarrow> world \<Rightarrow> error option \<times> world" where
  "shellTransport_Close st w = close_sock Ev_ShellClose (shell_sock st) w"

text \<open>The operations of \<open>syncTransport\<close> that device.go calls.\<close>

definition syncTransport_Send ::
  "syncTransport \<Rightarrow> gostring \<Rightarrow> gostring \<Rightarrow> world \<Rightarrow> error option \<times> world" where
  "syncTransport_Send sync command data w = io_call (Ev_SyncSend command data) w"

definition syncTransport_SendStream ::
  "syncTransport \<Rightarrow> bytes \<Rightarrow> world \<Rightarrow> error option \<times> world" where
  "syncTransport_SendStream sync source w = io_call (Ev_SendStream source) w"

definition syncTransport_SendStatus ::
  "syncTransport \<Rightarrow> gostring \<Rightarrow> 32 word \<Rightarrow> world \<Rightarrow> error option \<times> world" where
  "syncTransport_SendStatus sync statusCode n w = io_call (Ev_SendStatus statusCode n) w"

definition syncTransport_VerifyStatus :: "syncTransport \<Rightarrow> world \<Rightarrow> error option \<times> world" where
  "syncTransport_VerifyStatus sync w = io_call Ev_VerifyStatus w"

text \<open>
  \<open>ReadDirectoryEntry\<close> delivers the next of \<open>dents\<close>. When the daemon has sent nothing
  more and keeps the connection open, the call does not return: \<open>None\<close>.
\<close>

definition syncTransport_ReadDirectoryEntry ::
  "syncTransport \<Rightarrow> world \<Rightarrow> ((error + DeviceFileInfo) \<times> world) option" where
  "syncTransport_ReadDirectoryEntry sync w =
     (case dents w of
        [] \<Rightarrow> None
      | r # rs \<Rightarrow> Some (r, w\<lparr>calls := calls w @ [Ev_ReadDirectoryEntry], dents := rs\<rparr>))"

section \<open>device.go\<close>

record Client =
  host :: gostring
  port :: int

record Device =
  adbClient :: Client
  serial :: gostring
  attrs :: "gostring \<rightharpoonup> gostring"

text \<open>
  \<open>func (d Device) createDeviceTransport() (tp transport, err error)\<close>: the pair of
  results is returned as Go returns it, \<open>transport{}\<close> with the error on the first two
  failures, the transport itself with the result of \<open>VerifyResponse\<close> after them.
\<close>

definition createDeviceTransport :: "Device \<Rightarrow> world \<Rightarrow> (transport \<times> error option) \<times> world" where
  "createDeviceTransport d w =
     (case newTransport (host (adbClient d) @ str '':'' @ fmt_d (port (adbClient d))) w of
        (Inl err, w1) \<Rightarrow> ((Transport None, Some err), w1)
      | (Inr tp, w1) \<Rightarrow>
          (case transport_Send tp (str ''host:transport:'' @ serial d) w1 of
             (Some err, w2) \<Rightarrow> ((Transport None, Some err), w2)
           | (None, w2) \<Rightarrow>
               (case transport_VerifyResponse tp w2 of
                  (err, w3) \<Rightarrow> ((tp, err), w3))))"

text \<open>
  \<open>func (d Device) executeCommand(command string, onlyVerifyResponse ...bool)\<close>. The
  deferred \<open>tp.Close()\<close> runs on every return after the transport was created.
\<close>

definition executeCommand_body ::
  "transport \<Rightarrow> gostring \<Rightarrow> bool list \<Rightarrow> world \<Rightarrow> (gostring option \<times> error option) \<times> world" where
  "executeCommand_body tp command onlyVerifyResponse w =
     (case transport_Send tp command w of
        (Some err, w1) \<Rightarrow> ((None, Some err), w1)
      | (None, w1) \<Rightarrow>
          (case transport_VerifyResponse tp w1 of
             (Some err, w2) \<Rightarrow> ((None, Some err), w2)
           | (None, w2) \<Rightarrow>
               (if hd onlyVerifyResponse then ((None, None), w2)
                else transport_ReadBytesAll tp w2)))"

definition executeCommand ::
  "Device \<Rightarrow> gostring \<Rightarrow> bool list \<Rightarrow> world \<Rightarrow> (gostring option \<times> error option) \<times> world" where
  "executeCommand d command onlyVerifyResponse w =
     (let only = (if length onlyVerifyResponse = 0 then [False] else onlyVerifyResponse) in
      case createDeviceTransport d w of
        ((tp, Some err), w1) \<Rightarrow> ((None, Some err), w1)
      | ((tp, None), w1) \<Rightarrow>
          (case executeCommand_body tp command only w1 of
             (res, w2) \<Rightarrow> (res, snd (transport_Close tp w2))))"

text \<open>
  \<open>RunShellCommandWithBytes\<close> and \<open>RunShellCommand\<close>. \<open>shell_command cmd args\<close> is
  the command string after the first statement of both functions.
\<close>

definition shell_command :: "gostring \<Rightarrow> gostring list \<Rightarrow> gostring" where
  "shell_command cmd args =
     (if length args > 0 then cmd @ str '' '' @ Join args (str '' '') else cmd)"

definition err_empty_command :: error where
  "err_empty_command = Error (str ''adb shell: command cannot be empty'')"

definition RunShellCommandWithBytes ::
  "Device \<Rightarrow> gostring \<Rightarrow> gostring list \<Rightarrow> world \<Rightarrow> (gostring option \<times> error option) \<times> world" where
  "RunShellCommandWithBytes d cmd args w =
     (let cmd' = shell_command cmd args in
      if TrimSpace cmd' = [] then ((None, Some err_empty_command), w)
      else executeCommand d (str ''shell:'' @ cmd') [] w)"

definition RunShellCommand ::
  "Device \<Rightarrow> gostring \<Rightarrow> gostring list \<Rightarrow> world \<Rightarrow> (gostring \<times> error option) \<times> world" where
  "RunShellCommand d cmd args w =
     (case RunShellCommandWithBytes d cmd args w of
        ((raw, err), w') \<Rightarrow> ((case raw of None \<Rightarrow> [] | Some b \<Rightarrow> b, err), w'))"

subsection \<open>The shell reader\<close>

text \<open>
  The message ids of shell v2 are declared with \<open>shellTransport\<close>, which is not among
  the sources; the spec lists them: stdin, stdout, stderr, exit, closeStdin,
  windowSizeChange, and invalid for every other id.
\<close>

datatype shellMessageType =
    shellStdin
  | shellStdout
  | shellStderr
  | shellExit
  | shellCloseStdin
  | shellWindowSizeChange
  | shellInvalid

text \<open>
  What one call \<open>msgType, data, err := st.Read()\<close> returns: a message, or an error
  (end of stream, or a reset connection).
\<close>

datatype read_result = Msg shellMessageType bytes | ReadErr error

text \<open>
  \<open>io.Pipe()\<close>: \<open>written\<close> are the bytes the write end has handed to the read end, in
  order, which are the bytes the reader yields; \<open>wr_err\<close> is \<open>None\<close> while the write end
  is open, and after the write end was closed it is the error that ends the reader's
  stream (\<open>Close()\<close> is \<open>CloseWithError(nil)\<close>, which stores \<open>io.EOF\<close>, the regular end
  of a stream; only the first close counts); \<open>rclosed\<close> says that the read end was
  closed. A write fails once either end is closed. The read end that the source hands
  out is a \<open>*io.PipeReader\<close> behind the interface \<open>io.Reader\<close>, so the consumer can
  close it.
\<close>

record pipe =
  written :: bytes
  wr_err :: "error option"
  rclosed :: bool

definition io_Pipe :: pipe where
  "io_Pipe = \<lparr>written = [], wr_err = None, rclosed = False\<rparr>"

definition io_EOF :: error where
  "io_EOF = Error (str ''EOF'')"

definition ErrClosedPipe :: error where
  "ErrClosedPipe = Error (str ''io: read/write on closed pipe'')"

definition pipe_Write :: "pipe \<Rightarrow> bytes \<Rightarrow> (error + nat) \<times> pipe" where
  "pipe_Write pw d =
     (if wr_err pw \<noteq> None \<or> rclosed pw then (Inl ErrClosedPipe, pw)
      else (Inr (length d), pw\<lparr>written := written pw @ d\<rparr>))"

definition pipe_Close :: "pipe \<Rightarrow> pipe" where
  "pipe_Close pw = (if wr_err pw = None then pw\<lparr>wr_err := Some io_EOF\<rparr> else pw)"

text \<open>
  The goroutine of \<open>newShellReader\<close>, as a function of the results that \<open>st.Read()\<close>
  has returned so far: it has returned (and the deferred \<open>pw.Close()\<close> has run), or it
  is blocked in the next \<open>st.Read()\<close>. Both carry the state of the pipe.
\<close>

datatype goroutine = Blocked (pipe_of: pipe) | Returned (pipe_of: pipe)

fun shellReader_loop :: "read_result list \<Rightarrow> pipe \<Rightarrow> goroutine" where
  "shellReader_loop [] pw = Blocked pw"
| "shellReader_loop (ReadErr err # rest) pw = Returned (pipe_Close pw)"
| "shellReader_loop (Msg msgType d # rest) pw =
     (if msgType = shellStdout \<or> msgType = shellStderr then
        (if length d > 0 then
           (case pipe_Write pw d of
              (Inl werr, pw') \<Rightarrow> Returned (pipe_Close pw')
            | (Inr n, pw') \<Rightarrow> shellReader_loop rest pw')
         else shellReader_loop rest pw)
      else if msgType = shellExit then Returned (pipe_Close pw)
      else if msgType = shellCloseStdin then shellReader_loop rest pw
      else shellReader_loop rest pw)"

definition newShellReader :: "shellTransport \<Rightarrow> read_result list \<Rightarrow> goroutine" where
  "newShellReader shTp msgs = shellReader_loop msgs io_Pipe"





text \<open>
  \<open>type Shell struct\<close>: the reader is the state of its goroutine and pipe for every
  history of results of \<open>st.Read()\<close>.
\<close>

record Shell =
  st :: shellTransport
  Reader :: "read_result list \<Rightarrow> goroutine"

text \<open>\<open>func (s *Shell) Close() error\<close>\<close>

definition Shell_Close :: "Shell \<Rightarrow> world \<Rightarrow> error option \<times> world" where
  "Shell_Close s w = shellTransport_Close (st s) w"

text \<open>\<open>func (d Device) RunShellCommandAsync(cmd string, args ...string) (*Shell, error)\<close>\<close>

definition RunShellCommandAsync ::
  "Device \<Rightarrow> gostring \<Rightarrow> gostring list \<Rightarrow> world \<Rightarrow> (Shell option \<times> error option) \<times> world" where
  "RunShellCommandAsync d cmd args w =
     (let cmd' = shell_command cmd args in
      if TrimSpace cmd' = [] then ((None, Some err_empty_command), w)
      else
        (case createDeviceTransport d w of
           ((tp, Some err), w1) \<Rightarrow> ((None, Some err), w1)
         | ((tp, None), w1) \<Rightarrow>
             (case transport_Send tp (str ''shell:'' @ cmd') w1 of
                (Some err, w2) \<Rightarrow> ((None, Some err), snd (transport_Close tp w2))
              | (None, w2) \<Rightarrow>
                  (case transport_VerifyResponse tp w2 of
                     (Some err, w3) \<Rightarrow> ((None, Some err), snd (transport_Close tp w3))
                   | (None, w3) \<Rightarrow>
                       (case transport_CreateShellTransport tp w3 of
                          (Inl err, w4) \<Rightarrow> ((None, Some err), snd (transport_Close tp w4))
                        | (Inr shTp, w4) \<Rightarrow>
                            ((Some \<lparr>st = shTp, Reader = newShellReader shTp\<rparr>, None), w4))))))"

subsection \<open>Listing a directory\<close>

text \<open>
  The loop of \<open>List\<close>. \<open>None\<close>: the loop is blocked in \<open>ReadDirectoryEntry\<close> and the
  function does not return.
\<close>

function List_loop ::
  "syncTransport \<Rightarrow> DeviceFileInfo list \<Rightarrow> world
   \<Rightarrow> ((DeviceFileInfo list option \<times> error option) \<times> world) option" where
  "List_loop sync devFileInfos w =
     (case syncTransport_ReadDirectoryEntry sync w of
        None \<Rightarrow> None
      | Some (Inl err, w') \<Rightarrow> Some ((Some devFileInfos, Some err), w')
      | Some (Inr entry, w') \<Rightarrow>
          (if entry = zero_DeviceFileInfo then Some ((Some devFileInfos, None), w')
           else List_loop sync (devFileInfos @ [entry]) w'))"
  by pat_completeness auto
termination
  by (relation "measure (\<lambda>(sync, devFileInfos, w). length (dents w))")
    (auto simp add: syncTransport_ReadDirectoryEntry_def split: list.splits)

declare List_loop.simps [simp del]

text \<open>
  \<open>func (d Device) List(remotePath string) (devFileInfos []DeviceFileInfo, err error)\<close>.
  A nil slice is \<open>None\<close>. The two deferred calls run in reverse order on every return
  that comes after them.
\<close>

definition List_body ::
  "syncTransport \<Rightarrow> gostring \<Rightarrow> world
   \<Rightarrow> ((DeviceFileInfo list option \<times> error option) \<times> world) option" where
  "List_body sync remotePath w =
     (case syncTransport_Send sync (str ''LIST'') remotePath w of
        (Some err, w1) \<Rightarrow> Some ((None, Some err), w1)
      | (None, w1) \<Rightarrow> List_loop sync [] w1)"

definition Device_List ::
  "Device \<Rightarrow> gostring \<Rightarrow> world
   \<Rightarrow> ((DeviceFileInfo list option \<times> error option) \<times> world) option" where
  "Device_List d remotePath w =
     (case createDeviceTransport d w of
        ((tp, Some err), w1) \<Rightarrow> Some ((None, Some err), w1)
      | ((tp, None), w1) \<Rightarrow>
          (case (case transport_CreateSyncTransport tp w1 of
                   (Inl err, w2) \<Rightarrow> Some ((None, Some err), w2)
                 | (Inr sync, w2) \<Rightarrow>
                     (case List_body sync remotePath w2 of
                        None \<Rightarrow> None
                      | Some (res, w3) \<Rightarrow> Some (res, snd (syncTransport_Close sync w3)))) of
             None \<Rightarrow> None
           | Some (res, w4) \<Rightarrow> Some (res, snd (transport_Close tp w4))))"

subsection \<open>Pushing a file\<close>

text \<open>
  \<open>func (d Device) Push(source io.Reader, remotePath string, modification time.Time,
  mode ...os.FileMode) (err error)\<close>. The argument \<open>modification\<close> is represented by
  the \<open>int64\<close> that \<open>modification.Unix()\<close> returns, the source by the bytes it holds.
  \<open>uint32(...)\<close> keeps the low 32 bits.
\<close>

definition Push_body ::
  "syncTransport \<Rightarrow> bytes \<Rightarrow> gostring \<Rightarrow> 64 word \<Rightarrow> FileMode list \<Rightarrow> world
   \<Rightarrow> error option \<times> world" where
  "Push_body sync source remotePath modification mode w =
     (let data = remotePath @ str '','' @ decimal (unat (hd mode)) in
      case syncTransport_Send sync (str ''SEND'') data w of
        (Some err, w1) \<Rightarrow> (Some err, w1)
      | (None, w1) \<Rightarrow>
          (case syncTransport_SendStream sync source w1 of
             (Some err, w2) \<Rightarrow> (Some err, w2)
           | (None, w2) \<Rightarrow>
               (case syncTransport_SendStatus sync (str ''DONE'') (ucast modification) w2 of
                  (Some err, w3) \<Rightarrow> (Some err, w3)
                | (None, w3) \<Rightarrow> syncTransport_VerifyStatus sync w3)))"

definition Device_Push ::
  "Device \<Rightarrow> bytes \<Rightarrow> gostring \<Rightarrow> 64 word \<Rightarrow> FileMode list \<Rightarrow> world
   \<Rightarrow> error option \<times> world" where
  "Device_Push d source remotePath modification mode w =
     (let mode' = (if length mode = 0 then [DefaultFileMode] else mode) in
      case createDeviceTransport d w of
        ((tp, Some err), w1) \<Rightarrow> (Some err, w1)
      | ((tp, None), w1) \<Rightarrow>
          (case (case transport_CreateSyncTransport tp w1 of
                   (Inl err, w2) \<Rightarrow> (Some err, w2)
                 | (Inr sync, w2) \<Rightarrow>
                     (case Push_body sync source remotePath modification mode' w2 of
                        (res, w3) \<Rightarrow> (res, snd (syncTransport_Close sync w3)))) of
             (res, w4) \<Rightarrow> (res, snd (transport_Close tp w4))))"

subsection \<open>Listing the reverse forwards\<close>

text \<open>The loop of \<open>ReverseList\<close> over the lines, appending to \<open>deviceForwardList\<close>.\<close>

fun ReverseList_loop :: "gostring list \<Rightarrow> DeviceForward list \<Rightarrow> DeviceForward list" where
  "ReverseList_loop [] deviceForwardList = deviceForwardList"
| "ReverseList_loop (l # ls) deviceForwardList =
     (let line = TrimSpace l in
      if line = [] then ReverseList_loop ls deviceForwardList
      else
        (let fields = Fields line in
         if length fields < 2 then ReverseList_loop ls deviceForwardList
         else if length fields = 2 then
           ReverseList_loop ls
             (deviceForwardList @
              [\<lparr>Serial = str ''host'', Local = fields ! 0, Remote = fields ! 1\<rparr>])
         else
           ReverseList_loop ls
             (deviceForwardList @
              [\<lparr>Serial = fields ! 0, Local = fields ! 1, Remote = fields ! 2\<rparr>])))"

text \<open>\<open>func (d Device) ReverseList() (deviceForwardList []DeviceForward, err error)\<close>\<close>

definition Device_ReverseList ::
  "Device \<Rightarrow> world \<Rightarrow> (DeviceForward list option \<times> error option) \<times> world" where
  "Device_ReverseList d w =
     (case executeCommand d (str ''reverse:list-forward'') [] w of
        ((raw, Some err), w') \<Rightarrow> ((None, Some err), w')
      | ((raw, None), w') \<Rightarrow>
          (let resp = (case raw of None \<Rightarrow> [] | Some b \<Rightarrow> b);
               lines = Split resp 10
           in ((Some (ReverseList_loop lines []), None), w')))"

section \<open>Notions the properties are stated with\<close>

text \<open>
  A result of \<open>st.Read()\<close> that carries output (a stdout or stderr message), its
  payload, and the combined output of a sequence of results: the payloads of its stdout
  and stderr messages, concatenated in order.
\<close>

fun is_stdout_or_stderr :: "read_result \<Rightarrow> bool" where
  "is_stdout_or_stderr (Msg msgType d) = (msgType = shellStdout \<or> msgType = shellStderr)"
| "is_stdout_or_stderr (ReadErr err) = False"

fun payload :: "read_result \<Rightarrow> bytes" where
  "payload (Msg msgType d) = d"
| "payload (ReadErr err) = []"

definition combined_output :: "read_result list \<Rightarrow> bytes" where
  "combined_output msgs = concat (map payload (filter is_stdout_or_stderr msgs))"

text \<open>A result that is an exit message or a read error.\<close>

fun exit_or_error :: "read_result \<Rightarrow> bool" where
  "exit_or_error (Msg msgType d) = (msgType = shellExit)"
| "exit_or_error (ReadErr err) = True"


text \<open>
  The address \<open>createDeviceTransport\<close> dials, and the three calls it makes when all
  of them succeed.
\<close>

definition device_address :: "Device \<Rightarrow> gostring" where
  "device_address d = host (adbClient d) @ str '':'' @ fmt_d (port (adbClient d))"

definition handshake :: "Device \<Rightarrow> event list" where
  "handshake d = [Ev_newTransport (device_address d),
                  Ev_Send (str ''host:transport:'' @ serial d),
                  Ev_VerifyResponse]"

text \<open>A device and a world to evaluate the functions in.\<close>

definition emulator :: Device where
  "emulator = \<lparr>adbClient = \<lparr>host = str ''localhost'', port = 5037\<rparr>,
               serial = str ''emulator-5554'', attrs = Map.empty\<rparr>"

definition idle :: world where
  "idle = \<lparr>replies = sconst None, calls = [], socks = [], rx = None, dents = []\<rparr>"

text \<open>
  The argument of the \<open>SEND\<close> request as the specification words it: the remote path, a comma,
  and the mode in decimal digits, the mode being the first of the optional modes or the
  default mode. \<open>digits_value\<close> reads a string of decimal digits.
\<close>

definition push_data :: "gostring \<Rightarrow> FileMode list \<Rightarrow> gostring" where
  "push_data remotePath mode =
     remotePath @ str '','' @ decimal (unat (if mode = [] then DefaultFileMode else hd mode))"

definition digits_value :: "gostring \<Rightarrow> nat" where
  "digits_value s = foldl (\<lambda>a c. 10 * a + (c - 48)) 0 s"

text \<open>A directory entry to evaluate \<open>List\<close> with (mode 040755).\<close>

definition sdcard :: DeviceFileInfo where
  "sdcard = \<lparr>Name = str ''sdcard'', Mode = 16877, Size = 4096, LastModified = zero_time\<rparr>"

text \<open>
  What one line of the \<open>reverse:list-forward\<close> response contributes, in the
  words of the specification: nothing when the line is empty after trimming or has fewer than two fields;
  with exactly two fields, the serial "host" and the two fields; with three or more, the
  first three fields.
\<close>

definition forward_of_line :: "gostring \<Rightarrow> DeviceForward list" where
  "forward_of_line l =
     (if TrimSpace l = [] \<or> length (Fields l) < 2 then []
      else if length (Fields l) = 2 then
        [\<lparr>Serial = str ''host'', Local = Fields l ! 0, Remote = Fields l ! 1\<rparr>]
      else [\<lparr>Serial = Fields l ! 0, Local = Fields l ! 1, Remote = Fields l ! 2\<rparr>])"

section \<open>Directory flag\<close>

lemma and_exp14_eq: "((m :: 32 word) AND 2 ^ 14 = 2 ^ 14) = bit m 14"
proof
  assume h: "m AND 2 ^ 14 = 2 ^ 14"
  have "bit (m AND 2 ^ 14) 14 = bit (2 ^ 14 :: 32 word) 14"
    by (simp only: h)
  then show "bit m 14"
    by (simp only: bit_and_iff bit_exp_iff) simp
next
  assume b: "bit m 14"
  show "m AND 2 ^ 14 = 2 ^ 14"
  proof (rule bit_word_eqI)
    fix n
    assume "n < LENGTH(32)"
    show "bit (m AND 2 ^ 14) n = bit (2 ^ 14 :: 32 word) n"
      using b by (simp only: bit_and_iff bit_exp_iff) auto
  qed
qed

lemma IsDir_iff_bit: "IsDir info = bit (Mode info) 14"
proof -
  have e: "(push_bit 14 1 :: 32 word) = 2 ^ 14"
    by (simp only: push_bit_of_1)
  show ?thesis
    unfolding IsDir_def by (simp only: e and_exp14_eq)
qed

lemma bit14_block_device: "bit (24576 :: 32 word) 14"
proof -
  have "bit (2 ^ 14 OR 2 ^ 13 :: 32 word) 14"
    by (simp only: bit_or_iff bit_exp_iff) simp
  moreover have "(2 ^ 14 OR 2 ^ 13 :: 32 word) = 24576"
    by simp
  ultimately show ?thesis by simp
qed

lemma bit14_socket: "bit (49152 :: 32 word) 14"
proof -
  have "bit (2 ^ 15 OR 2 ^ 14 :: 32 word) 14"
    by (simp only: bit_or_iff bit_exp_iff) simp
  moreover have "(2 ^ 15 OR 2 ^ 14 :: 32 word) = 49152"
    by simp
  ultimately show ?thesis by simp
qed

text \<open>
  C10. \<open>IsDir\<close> is true exactly when bit 14 (octal 040000 = 16384) of the raw mode is
  set. So it is also true for every mode whose file-type field is that of a block device
  (060000 = 24576) or of a socket (0140000 = 49152), whatever the permission bits
  (mask 07777 = 4095) are.
\<close>

theorem IsDir_bit14:
  "IsDir info = bit (Mode info) 14
   \<and> (push_bit 14 1 :: FileMode) = 16384
   \<and> IsDir (info\<lparr>Mode := (perm AND 4095) OR 24576\<rparr>)
   \<and> IsDir (info\<lparr>Mode := (perm AND 4095) OR 49152\<rparr>)"
proof -
  have b: "(push_bit 14 1 :: FileMode) = 16384"
    by simp
  have c0: "bit ((perm AND 4095) OR 24576 :: FileMode) 14"
    by (simp only: bit_or_iff bit14_block_device simp_thms)
  have d0: "bit ((perm AND 4095) OR 49152 :: FileMode) 14"
    by (simp only: bit_or_iff bit14_socket simp_thms)
  have c: "IsDir (info\<lparr>Mode := (perm AND 4095) OR 24576\<rparr>)"
    unfolding IsDir_iff_bit using c0 by simp
  have d: "IsDir (info\<lparr>Mode := (perm AND 4095) OR 49152\<rparr>)"
    unfolding IsDir_iff_bit using d0 by simp
  show ?thesis
    using IsDir_iff_bit [of info] b c d by blast
qed

section \<open>The shell reader demultiplexes\<close>

lemma combined_output_Cons:
  "combined_output (r # rs) = (if is_stdout_or_stderr r then payload r else []) @ combined_output rs"
  by (simp add: combined_output_def)

lemma shellReader_loop_open:
  "wr_err pw = None \<Longrightarrow> \<not> rclosed pw \<Longrightarrow>
   shellReader_loop msgs pw =
     (if list_ex exit_or_error msgs
      then Returned (pw\<lparr>written := written pw @ combined_output (takeWhile (\<lambda>r. \<not> exit_or_error r) msgs),
                        wr_err := Some io_EOF\<rparr>)
      else Blocked (pw\<lparr>written := written pw @ combined_output msgs\<rparr>))"
proof (induction msgs arbitrary: pw)
  case Nil
  then show ?case by (simp add: combined_output_def)
next
  case (Cons r rs)
  show ?case
  proof (cases r)
    case (ReadErr e)
    with Cons.prems show ?thesis
      by (simp add: pipe_Close_def combined_output_def)
  next
    case (Msg t d)
    show ?thesis
    proof (cases "t = shellExit")
      case True
      with Msg Cons.prems show ?thesis
        by (simp add: pipe_Close_def combined_output_def)
    next
      case notexit: False
      show ?thesis
      proof (cases "t = shellStdout \<or> t = shellStderr")
        case True
        let ?pw' = "pw\<lparr>written := written pw @ d\<rparr>"
        have w: "pipe_Write pw d = (Inr (length d), ?pw')"
          using Cons.prems by (simp add: pipe_Write_def)
        have step: "shellReader_loop (r # rs) pw = shellReader_loop rs ?pw'"
          using Msg True w by (cases "d = []") auto
        have ih: "shellReader_loop rs ?pw' = (if list_ex exit_or_error rs
      then Returned (?pw'\<lparr>written := written ?pw' @ combined_output (takeWhile (\<lambda>r. \<not> exit_or_error r) rs),
                        wr_err := Some io_EOF\<rparr>)
      else Blocked (?pw'\<lparr>written := written ?pw' @ combined_output rs\<rparr>))"
          using Cons.prems by (intro Cons.IH) simp_all
        show ?thesis
          unfolding step ih using Msg True notexit
          by (auto simp add: combined_output_Cons)
      next
        case False
        have step: "shellReader_loop (r # rs) pw = shellReader_loop rs pw"
          using Msg False notexit by simp
        show ?thesis
          unfolding step Cons.IH [OF Cons.prems] using Msg False notexit
          by (simp add: combined_output_Cons)
      qed
    qed
  qed
qed

lemma closeStdin_skip:
  "shellReader_loop (pre @ Msg shellCloseStdin d # post) pw = shellReader_loop (pre @ post) pw"
proof (induction pre arbitrary: pw)
  case Nil
  show ?case by simp
next
  case (Cons r pre)
  show ?case
  proof (cases r)
    case (ReadErr e)
    then show ?thesis by simp
  next
    case (Msg t b)
    then show ?thesis
      by (simp add: Cons.IH split: prod.splits sum.splits)
  qed
qed


lemma combined_output_takeWhile_Suc:
  "combined_output (take (Suc (length (takeWhile (\<lambda>r. \<not> exit_or_error r) msgs))) msgs)
   = combined_output (takeWhile (\<lambda>r. \<not> exit_or_error r) msgs)"
proof (induction msgs)
  case Nil
  show ?case by simp
next
  case (Cons r rs)
  show ?case
  proof (cases "exit_or_error r")
    case True
    then have "\<not> is_stdout_or_stderr r"
      by (cases r) auto
    with True show ?thesis
      by (simp add: combined_output_def)
  next
    case False
    with Cons.IH show ?thesis
      by (simp add: combined_output_Cons)
  qed
qed

lemma newShellReader_char:
  "newShellReader shTp msgs =
     (if list_ex exit_or_error msgs
      then Returned \<lparr>written = combined_output (takeWhile (\<lambda>r. \<not> exit_or_error r) msgs),
                     wr_err = Some io_EOF, rclosed = False\<rparr>
      else Blocked \<lparr>written = combined_output msgs, wr_err = None, rclosed = False\<rparr>)"
  unfolding newShellReader_def
  by (subst shellReader_loop_open) (simp_all add: io_Pipe_def)

lemma takeWhile_no_exit_or_error:
  "\<not> list_ex exit_or_error msgs \<Longrightarrow> takeWhile (\<lambda>r. \<not> exit_or_error r) msgs = msgs"
  by (induction msgs) auto

text \<open>
  C1. Whatever results \<open>st.Read()\<close> has returned so far, the bytes that the reader of
  \<open>newShellReader\<close> yields are exactly the payloads of the stdout and stderr messages
  among the results the loop has read, concatenated in the order of arrival, and nothing
  else. The results read are those up to and including the first exit message or error;
  that one adds nothing, and what follows it is never read.
\<close>

theorem newShellReader_output:
  "written (pipe_of (newShellReader shTp msgs))
     = combined_output (take (Suc (length (takeWhile (\<lambda>r. \<not> exit_or_error r) msgs))) msgs)
   \<and> written (pipe_of (newShellReader shTp msgs))
     = combined_output (takeWhile (\<lambda>r. \<not> exit_or_error r) msgs)"
proof -
  have "written (pipe_of (newShellReader shTp msgs))
     = combined_output (takeWhile (\<lambda>r. \<not> exit_or_error r) msgs)"
    by (cases "list_ex exit_or_error msgs")
      (simp_all add: newShellReader_char takeWhile_no_exit_or_error)
  then show ?thesis
    by (simp only: combined_output_takeWhile_Suc)
qed











text \<open>
  C5. A closeStdin message is ignored: the goroutine and its pipe are in the state they
  would be in if the message had not arrived, so no byte of its payload is in the
  output and the loop goes on reading after it.
\<close>

theorem newShellReader_closeStdin:
  "newShellReader shTp (pre @ Msg shellCloseStdin d # post) = newShellReader shTp (pre @ post)"
  unfolding newShellReader_def by (rule closeStdin_skip)

section \<open>Closing, and the shell commands\<close>

lemma close_sock_again:
  "close_sock ev2 so (snd (close_sock ev1 so w))
   = (None, (snd (close_sock ev1 so w))\<lparr>calls := calls (snd (close_sock ev1 so w)) @ [ev2]\<rparr>)"
proof (cases so)
  case None
  then show ?thesis by (simp add: close_sock_def)
next
  case (Some i)
  show ?thesis
  proof (cases "i < length (socks w) \<and> socks w ! i")
    case True
    with Some show ?thesis
      by (simp add: close_sock_def io_call_def)
  next
    case False
    with Some show ?thesis
      by (auto simp add: close_sock_def io_call_def)
  qed
qed

text \<open>
  C6. A second \<open>Close()\<close> on a Shell returns no error and does nothing but be logged: no
  reply of the environment is consumed, so no I/O takes place, and in particular nothing
  is sent. The same holds for a second \<open>Close()\<close> on a transport, a syncTransport and
  a shellTransport, and for closing the transport whose socket a Shell has closed. The
  functions are total: there is no state in which a call crashes.
\<close>

theorem Close_twice:
  "Shell_Close s (snd (Shell_Close s w))
     = (None, (snd (Shell_Close s w))\<lparr>calls := calls (snd (Shell_Close s w)) @ [Ev_ShellClose]\<rparr>)
   \<and> transport_Close tp (snd (transport_Close tp w))
     = (None, (snd (transport_Close tp w))\<lparr>calls := calls (snd (transport_Close tp w)) @ [Ev_Close]\<rparr>)
   \<and> syncTransport_Close sync (snd (syncTransport_Close sync w))
     = (None, (snd (syncTransport_Close sync w))
          \<lparr>calls := calls (snd (syncTransport_Close sync w)) @ [Ev_SyncClose]\<rparr>)
   \<and> shellTransport_Close shTp (snd (shellTransport_Close shTp w))
     = (None, (snd (shellTransport_Close shTp w))
          \<lparr>calls := calls (snd (shellTransport_Close shTp w)) @ [Ev_ShellClose]\<rparr>)
   \<and> transport_Close (Transport (shell_sock (st s))) (snd (Shell_Close s w))
     = (None, (snd (Shell_Close s w))\<lparr>calls := calls (snd (Shell_Close s w)) @ [Ev_Close]\<rparr>)"
  unfolding Shell_Close_def transport_Close_def syncTransport_Close_def shellTransport_Close_def
  by (simp add: close_sock_again)

lemma io_call_replies:
  "io_call ev (w\<lparr>replies := r ## rs\<rparr>) = (r, w\<lparr>replies := rs, calls := calls w @ [ev]\<rparr>)"
  by (simp add: io_call_def)

lemma createDeviceTransport_ok:
  "createDeviceTransport d (w\<lparr>replies := None ## None ## None ## rs\<rparr>)
   = ((Transport (Some (length (socks w))), None),
      w\<lparr>replies := rs,
        calls := calls w @ [Ev_newTransport (device_address d),
                            Ev_Send (str ''host:transport:'' @ serial d),
                            Ev_VerifyResponse],
        socks := socks w @ [True]\<rparr>)"
  by (simp add: createDeviceTransport_def newTransport_def transport_Send_def
      transport_VerifyResponse_def io_call_def device_address_def)

lemma close_fresh:
  "close_sock ev (Some (length (socks w))) (w\<lparr>replies := r ## rs, calls := cs, socks := socks w @ [True]\<rparr>)
   = (r, w\<lparr>replies := rs, calls := cs @ [ev], socks := socks w @ [False]\<rparr>)"
  by (simp add: close_sock_def io_call_def)

lemma createDeviceTransport_ok':
  "createDeviceTransport d (w\<lparr>replies := None ## None ## None ## rs\<rparr>)
   = ((Transport (Some (length (socks w))), None),
      w\<lparr>replies := rs, calls := calls w @ handshake d, socks := socks w @ [True]\<rparr>)"
  by (simp add: createDeviceTransport_ok handshake_def)

lemma async_send_fails:
  assumes "TrimSpace (shell_command cmd args) \<noteq> []"
  shows "RunShellCommandAsync d cmd args (w\<lparr>replies := None ## None ## None ## Some e ## r ## rs\<rparr>)
     = ((None, Some e),
        w\<lparr>replies := rs,
          calls := calls w @ handshake d @ [Ev_Send (str ''shell:'' @ shell_command cmd args), Ev_Close],
          socks := socks w @ [False]\<rparr>)"
  using assms
  by (simp add: RunShellCommandAsync_def createDeviceTransport_ok' transport_Send_def
      io_call_def transport_Close_def close_sock_def Let_def)

lemma async_verify_fails:
  assumes "TrimSpace (shell_command cmd args) \<noteq> []"
  shows "RunShellCommandAsync d cmd args
       (w\<lparr>replies := None ## None ## None ## None ## Some e ## r ## rs\<rparr>)
     = ((None, Some e),
        w\<lparr>replies := rs,
          calls := calls w @ handshake d @
            [Ev_Send (str ''shell:'' @ shell_command cmd args), Ev_VerifyResponse, Ev_Close],
          socks := socks w @ [False]\<rparr>)"
  using assms
  by (simp add: RunShellCommandAsync_def createDeviceTransport_ok' transport_Send_def
      transport_VerifyResponse_def
      io_call_def transport_Close_def close_sock_def Let_def)

lemma async_shell_fails:
  assumes "TrimSpace (shell_command cmd args) \<noteq> []"
  shows "RunShellCommandAsync d cmd args
       (w\<lparr>replies := None ## None ## None ## None ## None ## Some e ## r ## rs\<rparr>)
     = ((None, Some e),
        w\<lparr>replies := rs,
          calls := calls w @ handshake d @
            [Ev_Send (str ''shell:'' @ shell_command cmd args), Ev_VerifyResponse,
             Ev_CreateShellTransport, Ev_Close],
          socks := socks w @ [False]\<rparr>)"
  using assms
  by (simp add: RunShellCommandAsync_def createDeviceTransport_ok' transport_Send_def
      transport_VerifyResponse_def transport_CreateShellTransport_def
      io_call_def transport_Close_def close_sock_def Let_def)

lemma async_succeeds:
  assumes "TrimSpace (shell_command cmd args) \<noteq> []"
  shows "RunShellCommandAsync d cmd args
       (w\<lparr>replies := None ## None ## None ## None ## None ## None ## rs\<rparr>)
     = ((Some \<lparr>st = ShellTransport (Some (length (socks w))),
               Reader = newShellReader (ShellTransport (Some (length (socks w))))\<rparr>, None),
        w\<lparr>replies := rs,
          calls := calls w @ handshake d @
            [Ev_Send (str ''shell:'' @ shell_command cmd args), Ev_VerifyResponse,
             Ev_CreateShellTransport],
          socks := socks w @ [True]\<rparr>)"
  using assms
  by (simp add: RunShellCommandAsync_def createDeviceTransport_ok' transport_Send_def
      transport_VerifyResponse_def transport_CreateShellTransport_def
      io_call_def transport_Close_def close_sock_def Let_def)

text \<open>
  C7. When the command is not blank and the device transport has been created, a failure
  of \<open>Send\<close>, of \<open>VerifyResponse\<close> or of \<open>CreateShellTransport\<close> is followed by
  \<open>tp.Close()\<close> as the last call, the error returned is that of the failed call, and
  the socket opened is closed on return. When all three succeed, no \<open>Close()\<close> is
  called, the socket is open on return, and the Shell returned holds it.
\<close>

theorem RunShellCommandAsync_closes_on_error:
  assumes "TrimSpace (shell_command cmd args) \<noteq> []"
  shows "RunShellCommandAsync d cmd args
           (w\<lparr>replies := None ## None ## None ## Some e ## r ## rs\<rparr>)
         = ((None, Some e),
            w\<lparr>replies := rs,
              calls := calls w @ handshake d @
                [Ev_Send (str ''shell:'' @ shell_command cmd args), Ev_Close],
              socks := socks w @ [False]\<rparr>)
       \<and> RunShellCommandAsync d cmd args
           (w\<lparr>replies := None ## None ## None ## None ## Some e ## r ## rs\<rparr>)
         = ((None, Some e),
            w\<lparr>replies := rs,
              calls := calls w @ handshake d @
                [Ev_Send (str ''shell:'' @ shell_command cmd args), Ev_VerifyResponse, Ev_Close],
              socks := socks w @ [False]\<rparr>)
       \<and> RunShellCommandAsync d cmd args
           (w\<lparr>replies := None ## None ## None ## None ## None ## Some e ## r ## rs\<rparr>)
         = ((None, Some e),
            w\<lparr>replies := rs,
              calls := calls w @ handshake d @
                [Ev_Send (str ''shell:'' @ shell_command cmd args), Ev_VerifyResponse,
                 Ev_CreateShellTransport, Ev_Close],
              socks := socks w @ [False]\<rparr>)
       \<and> RunShellCommandAsync d cmd args
           (w\<lparr>replies := None ## None ## None ## None ## None ## None ## rs\<rparr>)
         = ((Some \<lparr>st = ShellTransport (Some (length (socks w))),
                   Reader = newShellReader (ShellTransport (Some (length (socks w))))\<rparr>, None),
            w\<lparr>replies := rs,
              calls := calls w @ handshake d @
                [Ev_Send (str ''shell:'' @ shell_command cmd args), Ev_VerifyResponse,
                 Ev_CreateShellTransport],
              socks := socks w @ [True]\<rparr>)"
  using async_send_fails [OF assms] async_verify_fails [OF assms]
    async_shell_fails [OF assms] async_succeeds [OF assms]
  by blast

lemma logcat_not_blank: "TrimSpace (shell_command (str ''logcat'') []) \<noteq> []"
  by (simp add: TrimSpace_def shell_command_def str_def isSpace_def)

theorem RunShellCommandAsync_closes_on_error_witness:
  "TrimSpace (shell_command (str ''logcat'') []) \<noteq> []
   \<and> RunShellCommandAsync emulator (str ''logcat'') []
        (idle\<lparr>replies := None ## None ## None ## None ## Some io_EOF ## None ## sconst None\<rparr>)
      = ((None, Some io_EOF),
         idle\<lparr>replies := sconst None,
              calls := calls idle @ handshake emulator @
                [Ev_Send (str ''shell:'' @ shell_command (str ''logcat'') []), Ev_VerifyResponse,
                 Ev_Close],
              socks := socks idle @ [False]\<rparr>)
   \<and> socks (snd (RunShellCommandAsync emulator (str ''logcat'') []
        (idle\<lparr>replies := None ## None ## None ## None ## None ## None ## sconst None\<rparr>)))
      = [True]"
proof -
  note t = RunShellCommandAsync_closes_on_error [OF logcat_not_blank,
      where d = emulator and w = idle and e = io_EOF and r = None and rs = "sconst None"]
  have s: "socks idle = []"
    by (simp add: idle_def)
  show ?thesis
    using logcat_not_blank t s by simp
qed

lemma TrimSpace_empty_iff: "(TrimSpace s = []) = list_all isSpace s"
proof -
  have "(TrimSpace s = []) = (\<forall>x \<in> set (dropWhile isSpace s). isSpace x)"
    by (simp add: TrimSpace_def dropWhile_eq_Nil_conv)
  also have "\<dots> = (dropWhile isSpace s = [])"
  proof
    assume a: "\<forall>x \<in> set (dropWhile isSpace s). isSpace x"
    show "dropWhile isSpace s = []"
    proof (rule ccontr)
      assume n: "dropWhile isSpace s \<noteq> []"
      then have "\<not> isSpace (hd (dropWhile isSpace s))"
        by (rule hd_dropWhile)
      moreover have "hd (dropWhile isSpace s) \<in> set (dropWhile isSpace s)"
        using n by simp
      ultimately show False
        using a by blast
    qed
  next
    assume e: "dropWhile isSpace s = []"
    show "\<forall>x \<in> set (dropWhile isSpace s). isSpace x"
      unfolding e by simp
  qed
  also have "\<dots> = list_all isSpace s"
    by (simp add: dropWhile_eq_Nil_conv list_all_iff)
  finally show ?thesis .
qed

lemma Join_Cons: "Join (cmd # args) sep = (if args = [] then cmd else cmd @ sep @ Join args sep)"
  by (cases args) simp_all

lemma shell_command_Join: "shell_command cmd args = Join (cmd # args) (str '' '')"
  by (simp add: shell_command_def Join_Cons)

lemma io_call_calls: "calls (snd (io_call ev w)) = calls w @ [ev]"
  by (simp add: io_call_def)

lemma close_sock_calls: "calls (snd (close_sock ev so w)) = calls w @ [ev]"
  by (auto simp add: close_sock_def io_call_def split: option.splits)

lemma createDeviceTransport_calls:
  "length (calls w) < length (calls (snd (createDeviceTransport d w)))"
  by (auto simp add: createDeviceTransport_def newTransport_def transport_Send_def
      transport_VerifyResponse_def io_call_def split: option.splits)

lemma executeCommand_body_calls:
  "length (calls w) \<le> length (calls (snd (executeCommand_body tp c only w)))"
  by (auto simp add: executeCommand_body_def transport_Send_def
      transport_VerifyResponse_def transport_ReadBytesAll_def io_call_def split: option.splits)

lemma executeCommand_calls:
  "length (calls w) < length (calls (snd (executeCommand d c only w)))"
proof -
  obtain tp err w1 where c: "createDeviceTransport d w = ((tp, err), w1)"
    by (metis prod.exhaust)
  have l1: "length (calls w) < length (calls w1)"
    using createDeviceTransport_calls [of w d] c by simp
  show ?thesis
  proof (cases err)
    case (Some e)
    with c l1 show ?thesis
      by (simp add: executeCommand_def Let_def)
  next
    case None
    let ?only = "if length only = 0 then [False] else only"
    obtain res w2 where b: "executeCommand_body tp c ?only w1 = (res, w2)"
      by (metis prod.exhaust)
    have l2: "length (calls w1) \<le> length (calls w2)"
      using executeCommand_body_calls [of w1 tp c ?only] b by simp
    have "snd (executeCommand d c only w) = snd (transport_Close tp w2)"
      using c None b by (simp add: executeCommand_def Let_def)
    then show ?thesis
      using l1 l2 by (simp add: transport_Close_def close_sock_calls)
  qed
qed

lemma executeCommand_changes: "snd (executeCommand d c only w) \<noteq> w"
  using executeCommand_calls [of w d c only] by auto

lemma RunShellCommandAsync_calls:
  "TrimSpace (shell_command cmd args) \<noteq> [] \<Longrightarrow>
   length (calls w) < length (calls (snd (RunShellCommandAsync d cmd args w)))"
proof -
  assume h: "TrimSpace (shell_command cmd args) \<noteq> []"
  obtain tp err w1 where c: "createDeviceTransport d w = ((tp, err), w1)"
    by (metis prod.exhaust)
  have l1: "length (calls w) < length (calls w1)"
    using createDeviceTransport_calls [of w d] c by simp
  show ?thesis
    using h c l1
    by (auto simp add: RunShellCommandAsync_def Let_def transport_Send_def
        transport_VerifyResponse_def transport_CreateShellTransport_def transport_Close_def
        close_sock_calls io_call_def split: option.splits)
qed

text \<open>
  C9. Each of \<open>RunShellCommandWithBytes\<close>, \<open>RunShellCommand\<close> and
  \<open>RunShellCommandAsync\<close> returns the error "adb shell: command cannot be empty" and
  leaves the world as it was, no call made, exactly when the command and its arguments
  joined by single spaces give a string of white space only (the empty string included).
\<close>

theorem empty_command_rejected:
  "list_all isSpace (Join (cmd # args) (str '' ''))
     = (RunShellCommandWithBytes d cmd args w = ((None, Some err_empty_command), w))
   \<and> list_all isSpace (Join (cmd # args) (str '' ''))
     = (RunShellCommand d cmd args w = (([], Some err_empty_command), w))
   \<and> list_all isSpace (Join (cmd # args) (str '' ''))
     = (RunShellCommandAsync d cmd args w = ((None, Some err_empty_command), w))
   \<and> err_empty_command = Error (str ''adb shell: command cannot be empty'')"
proof -
  let ?blank = "list_all isSpace (Join (cmd # args) (str '' ''))"
  have t: "(TrimSpace (shell_command cmd args) = []) = ?blank"
    by (simp only: TrimSpace_empty_iff shell_command_Join)
  have a: "?blank = (RunShellCommandWithBytes d cmd args w = ((None, Some err_empty_command), w))"
  proof (cases ?blank)
    case True
    then show ?thesis
      using t by (simp add: RunShellCommandWithBytes_def)
  next
    case False
    then have "RunShellCommandWithBytes d cmd args w
        = executeCommand d (str ''shell:'' @ shell_command cmd args) [] w"
      using t by (simp add: RunShellCommandWithBytes_def)
    then have "snd (RunShellCommandWithBytes d cmd args w) \<noteq> w"
      by (simp only: executeCommand_changes not_False_eq_True)
    then show ?thesis
      using False by auto
  qed
  have b: "?blank = (RunShellCommand d cmd args w = (([], Some err_empty_command), w))"
  proof (cases ?blank)
    case True
    then show ?thesis
      using a by (simp add: RunShellCommand_def)
  next
    case False
    then have "RunShellCommandWithBytes d cmd args w
        = executeCommand d (str ''shell:'' @ shell_command cmd args) [] w"
      using t by (simp add: RunShellCommandWithBytes_def)
    then have "snd (RunShellCommandWithBytes d cmd args w) \<noteq> w"
      by (simp only: executeCommand_changes not_False_eq_True)
    then have "snd (RunShellCommand d cmd args w) \<noteq> w"
      by (auto simp add: RunShellCommand_def split: prod.splits)
    then show ?thesis
      using False by auto
  qed
  have c: "?blank = (RunShellCommandAsync d cmd args w = ((None, Some err_empty_command), w))"
  proof (cases ?blank)
    case True
    then show ?thesis
      using t by (simp add: RunShellCommandAsync_def)
  next
    case False
    then have "TrimSpace (shell_command cmd args) \<noteq> []"
      using t by simp
    then have "length (calls w) < length (calls (snd (RunShellCommandAsync d cmd args w)))"
      by (rule RunShellCommandAsync_calls)
    then have "snd (RunShellCommandAsync d cmd args w) \<noteq> w"
      by auto
    then show ?thesis
      using False by auto
  qed
  show ?thesis
    using a b c by (simp only: err_empty_command_def simp_thms)
qed

section \<open>Pushing a file\<close>

lemma close_sync_then_tp:
  "snd (transport_Close (Transport (Some (length (socks w))))
     (snd (syncTransport_Close (SyncTransport (Some (length (socks w))))
        (w\<lparr>replies := r ## rs, calls := cs, socks := socks w @ [True]\<rparr>))))
   = w\<lparr>replies := rs, calls := cs @ [Ev_SyncClose, Ev_Close], socks := socks w @ [False]\<rparr>"
  by (simp add: transport_Close_def syncTransport_Close_def close_sock_def io_call_def)

lemma Push_send_fails:
  "Device_Push d source remotePath modification mode
     (w\<lparr>replies := None ## None ## None ## None ## Some e ## r ## rs\<rparr>)
   = (Some e,
      w\<lparr>replies := rs,
        calls := calls w @ handshake d @
          [Ev_CreateSyncTransport, Ev_SyncSend (str ''SEND'') (push_data remotePath mode),
           Ev_SyncClose, Ev_Close],
        socks := socks w @ [False]\<rparr>)"
  by (simp add: Device_Push_def Let_def createDeviceTransport_ok' transport_CreateSyncTransport_def Push_body_def
      syncTransport_Send_def io_call_def push_data_def
      transport_Close_def syncTransport_Close_def close_sock_def)


lemma Push_stream_fails:
  "Device_Push d source remotePath modification mode
     (w\<lparr>replies := None ## None ## None ## None ## None ## Some e ## r ## rs\<rparr>)
   = (Some e,
      w\<lparr>replies := rs,
        calls := calls w @ handshake d @
          [Ev_CreateSyncTransport, Ev_SyncSend (str ''SEND'') (push_data remotePath mode),
           Ev_SendStream source, Ev_SyncClose, Ev_Close],
        socks := socks w @ [False]\<rparr>)"
  by (simp add: Device_Push_def Let_def createDeviceTransport_ok' transport_CreateSyncTransport_def Push_body_def
      syncTransport_Send_def syncTransport_SendStream_def syncTransport_SendStatus_def
      syncTransport_VerifyStatus_def io_call_def push_data_def
      transport_Close_def syncTransport_Close_def close_sock_def)

lemma Push_done_fails:
  "Device_Push d source remotePath modification mode
     (w\<lparr>replies := None ## None ## None ## None ## None ## None ## Some e ## r ## rs\<rparr>)
   = (Some e,
      w\<lparr>replies := rs,
        calls := calls w @ handshake d @
          [Ev_CreateSyncTransport, Ev_SyncSend (str ''SEND'') (push_data remotePath mode),
           Ev_SendStream source, Ev_SendStatus (str ''DONE'') (ucast modification),
           Ev_SyncClose, Ev_Close],
        socks := socks w @ [False]\<rparr>)"
  by (simp add: Device_Push_def Let_def createDeviceTransport_ok' transport_CreateSyncTransport_def Push_body_def
      syncTransport_Send_def syncTransport_SendStream_def syncTransport_SendStatus_def
      syncTransport_VerifyStatus_def io_call_def push_data_def
      transport_Close_def syncTransport_Close_def close_sock_def)

lemma Push_status:
  "Device_Push d source remotePath modification mode
     (w\<lparr>replies := None ## None ## None ## None ## None ## None ## None ## status ## r ## rs\<rparr>)
   = (status,
      w\<lparr>replies := rs,
        calls := calls w @ handshake d @
          [Ev_CreateSyncTransport, Ev_SyncSend (str ''SEND'') (push_data remotePath mode),
           Ev_SendStream source, Ev_SendStatus (str ''DONE'') (ucast modification),
           Ev_VerifyStatus, Ev_SyncClose, Ev_Close],
        socks := socks w @ [False]\<rparr>)"
  by (simp add: Device_Push_def Let_def createDeviceTransport_ok' transport_CreateSyncTransport_def Push_body_def
      syncTransport_Send_def syncTransport_SendStream_def syncTransport_SendStatus_def
      syncTransport_VerifyStatus_def io_call_def push_data_def
      transport_Close_def syncTransport_Close_def close_sock_def)

lemma decimal_digits: "list_all (\<lambda>c. 48 \<le> c \<and> c \<le> 57) (decimal n)"
proof (induction n rule: decimal.induct)
  case (1 n)
  show ?case
  proof (cases "n < 10")
    case True
    then show ?thesis
      by (subst decimal.simps) simp
  next
    case False
    have "n mod 10 < 10"
      by simp
    then have "48 + n mod 10 \<le> 57"
      by linarith
    with False 1 show ?thesis
      by (subst decimal.simps) simp
  qed
qed

lemma decimal_value: "digits_value (decimal n) = n"
proof (induction n rule: decimal.induct)
  case (1 n)
  show ?case
  proof (cases "n < 10")
    case True
    then show ?thesis
      by (subst decimal.simps) (simp add: digits_value_def)
  next
    case False
    with 1 have ih: "digits_value (decimal (n div 10)) = n div 10"
      by simp
    have "digits_value (decimal n) = 10 * digits_value (decimal (n div 10)) + n mod 10"
      using False by (subst decimal.simps) (simp add: digits_value_def)
    then show ?thesis
      by (simp add: ih)
  qed
qed

lemma decimal_default_mode: "decimal (unat DefaultFileMode) = str ''436''"
  by (simp add: DefaultFileMode_def decimal.simps str_def)

text \<open>
  C4. After the transport and the sync transport were created, \<open>Push\<close> calls, in
  this order, \<open>Send("SEND", data)\<close> with \<open>data\<close> the remote path, a comma and the
  mode in decimal, \<open>SendStream(source)\<close>, \<open>SendStatus("DONE", uint32(modification.Unix()))\<close>
  and \<open>VerifyStatus()\<close> once. The first of them that fails ends the sequence, none of
  the later calls is made, and its error is what \<open>Push\<close> returns; when all succeed,
  \<open>Push\<close> returns no error. (The deferred closes follow in every case.) The digits of
  \<open>decimal\<close> are decimal digits that read back as the number; the default mode 0664
  gives "436"; the conversion to \<open>uint32\<close> keeps the time modulo \<open>2 ^ 32\<close>.
\<close>

theorem Push_protocol_order:
  "Device_Push d source remotePath modification mode
     (w\<lparr>replies := None ## None ## None ## None ## Some e ## r ## rs\<rparr>)
   = (Some e,
      w\<lparr>replies := rs,
        calls := calls w @ handshake d @
          [Ev_CreateSyncTransport, Ev_SyncSend (str ''SEND'') (push_data remotePath mode),
           Ev_SyncClose, Ev_Close],
        socks := socks w @ [False]\<rparr>)
   \<and> Device_Push d source remotePath modification mode
     (w\<lparr>replies := None ## None ## None ## None ## None ## Some e ## r ## rs\<rparr>)
   = (Some e,
      w\<lparr>replies := rs,
        calls := calls w @ handshake d @
          [Ev_CreateSyncTransport, Ev_SyncSend (str ''SEND'') (push_data remotePath mode),
           Ev_SendStream source, Ev_SyncClose, Ev_Close],
        socks := socks w @ [False]\<rparr>)
   \<and> Device_Push d source remotePath modification mode
     (w\<lparr>replies := None ## None ## None ## None ## None ## None ## Some e ## r ## rs\<rparr>)
   = (Some e,
      w\<lparr>replies := rs,
        calls := calls w @ handshake d @
          [Ev_CreateSyncTransport, Ev_SyncSend (str ''SEND'') (push_data remotePath mode),
           Ev_SendStream source, Ev_SendStatus (str ''DONE'') (ucast modification),
           Ev_SyncClose, Ev_Close],
        socks := socks w @ [False]\<rparr>)
   \<and> Device_Push d source remotePath modification mode
     (w\<lparr>replies := None ## None ## None ## None ## None ## None ## None ## status ## r ## rs\<rparr>)
   = (status,
      w\<lparr>replies := rs,
        calls := calls w @ handshake d @
          [Ev_CreateSyncTransport, Ev_SyncSend (str ''SEND'') (push_data remotePath mode),
           Ev_SendStream source, Ev_SendStatus (str ''DONE'') (ucast modification),
           Ev_VerifyStatus, Ev_SyncClose, Ev_Close],
        socks := socks w @ [False]\<rparr>)
   \<and> push_data remotePath mode
     = remotePath @ str '','' @ decimal (unat (if mode = [] then DefaultFileMode else hd mode))
   \<and> list_all (\<lambda>c. 48 \<le> c \<and> c \<le> 57) (decimal n)
   \<and> digits_value (decimal n) = n
   \<and> decimal (unat DefaultFileMode) = str ''436''
   \<and> unat (ucast modification :: 32 word) = unat modification mod 2 ^ 32"
proof -
  have u: "unat (ucast modification :: 32 word) = unat modification mod 2 ^ 32"
    by (simp add: unsigned_ucast_eq take_bit_eq_mod)
  show ?thesis
    by (intro conjI Push_send_fails Push_stream_fails Push_done_fails Push_status
        decimal_digits decimal_value decimal_default_mode u push_data_def)
qed

section \<open>Listing a directory\<close>

lemma ReadDirectoryEntry_Cons:
  "dents w = x # xs \<Longrightarrow>
   syncTransport_ReadDirectoryEntry sync w
     = Some (x, w\<lparr>calls := calls w @ [Ev_ReadDirectoryEntry], dents := xs\<rparr>)"
  by (simp add: syncTransport_ReadDirectoryEntry_def)

lemma replicate_Suc_snoc: "x # replicate n x = replicate n x @ [x]"
  by (induction n) simp_all

lemma List_loop_sentinel:
  assumes "zero_DeviceFileInfo \<notin> set es"
    and "dents w = map Inr es @ Inr zero_DeviceFileInfo # rest"
  shows "List_loop sync acc w
     = Some ((Some (acc @ es), None),
         w\<lparr>calls := calls w @ replicate (Suc (length es)) Ev_ReadDirectoryEntry, dents := rest\<rparr>)"
  using assms
proof (induction es arbitrary: w acc)
  case Nil
  then show ?case
    by (subst List_loop.simps) (simp add: ReadDirectoryEntry_Cons)
next
  case (Cons e es)
  let ?w' = "w\<lparr>calls := calls w @ [Ev_ReadDirectoryEntry], dents := map Inr es @ Inr zero_DeviceFileInfo # rest\<rparr>"
  have r: "syncTransport_ReadDirectoryEntry sync w = Some (Inr e, ?w')"
    using Cons.prems by (simp add: ReadDirectoryEntry_Cons)
  have ne: "e \<noteq> zero_DeviceFileInfo"
    using Cons.prems by auto
  have "List_loop sync acc w = List_loop sync (acc @ [e]) ?w'"
    using r ne by (subst List_loop.simps) simp
  also have "\<dots> = Some ((Some ((acc @ [e]) @ es), None),
         ?w'\<lparr>calls := calls ?w' @ replicate (Suc (length es)) Ev_ReadDirectoryEntry, dents := rest\<rparr>)"
    using Cons.prems by (intro Cons.IH) simp_all
  finally show ?case
    by (simp add: replicate_Suc_snoc)
qed

lemma List_loop_error:
  assumes "zero_DeviceFileInfo \<notin> set es"
    and "dents w = map Inr es @ Inl err # rest"
  shows "List_loop sync acc w
     = Some ((Some (acc @ es), Some err),
         w\<lparr>calls := calls w @ replicate (Suc (length es)) Ev_ReadDirectoryEntry, dents := rest\<rparr>)"
  using assms
proof (induction es arbitrary: w acc)
  case Nil
  then show ?case
    by (subst List_loop.simps) (simp add: ReadDirectoryEntry_Cons)
next
  case (Cons e es)
  let ?w' = "w\<lparr>calls := calls w @ [Ev_ReadDirectoryEntry], dents := map Inr es @ Inl err # rest\<rparr>"
  have r: "syncTransport_ReadDirectoryEntry sync w = Some (Inr e, ?w')"
    using Cons.prems by (simp add: ReadDirectoryEntry_Cons)
  have ne: "e \<noteq> zero_DeviceFileInfo"
    using Cons.prems by auto
  have "List_loop sync acc w = List_loop sync (acc @ [e]) ?w'"
    using r ne by (subst List_loop.simps) simp
  also have "\<dots> = Some ((Some ((acc @ [e]) @ es), Some err),
         ?w'\<lparr>calls := calls ?w' @ replicate (Suc (length es)) Ev_ReadDirectoryEntry, dents := rest\<rparr>)"
    using Cons.prems by (intro Cons.IH) simp_all
  finally show ?case
    by (simp add: replicate_Suc_snoc)
qed

lemma List_loop_blocked:
  assumes "zero_DeviceFileInfo \<notin> set es"
    and "dents w = map Inr es"
  shows "List_loop sync acc w = None"
  using assms
proof (induction es arbitrary: w acc)
  case Nil
  then show ?case
    by (subst List_loop.simps) (simp add: syncTransport_ReadDirectoryEntry_def)
next
  case (Cons e es)
  let ?w' = "w\<lparr>calls := calls w @ [Ev_ReadDirectoryEntry], dents := map Inr es\<rparr>"
  have r: "syncTransport_ReadDirectoryEntry sync w = Some (Inr e, ?w')"
    using Cons.prems by (simp add: ReadDirectoryEntry_Cons)
  have ne: "e \<noteq> zero_DeviceFileInfo"
    using Cons.prems by auto
  have "List_loop sync acc w = List_loop sync (acc @ [e]) ?w'"
    using r ne by (subst List_loop.simps) simp
  also have "\<dots> = None"
    using Cons.prems by (intro Cons.IH) simp_all
  finally show ?case .
qed

lemma List_loop_no_sentinel:
  "List_loop sync acc w = Some ((res, err), w') \<Longrightarrow> zero_DeviceFileInfo \<notin> set acc \<Longrightarrow>
   \<exists>xs. res = Some xs \<and> zero_DeviceFileInfo \<notin> set xs"
proof (induction sync acc w rule: List_loop.induct)
  case (1 sync acc w)
  show ?case
  proof (cases "syncTransport_ReadDirectoryEntry sync w")
    case None
    with "1.prems" show ?thesis
      by (subst (asm) List_loop.simps) simp
  next
    case (Some a)
    obtain x w1 where a: "a = (x, w1)"
      by (cases a)
    show ?thesis
    proof (cases x)
      case (Inl e)
      with Some a "1.prems" show ?thesis
        by (subst (asm) List_loop.simps) auto
    next
      case (Inr entry)
      show ?thesis
      proof (cases "entry = zero_DeviceFileInfo")
        case True
        with Some a Inr "1.prems" show ?thesis
          by (subst (asm) List_loop.simps) auto
      next
        case False
        have "List_loop sync (acc @ [entry]) w1 = Some ((res, err), w')"
          using "1.prems"(1) Some a Inr False by (subst (asm) List_loop.simps) simp
        moreover have "zero_DeviceFileInfo \<notin> set (acc @ [entry])"
          using "1.prems"(2) False by auto
        ultimately show ?thesis
          using "1.IH" [OF Some a [symmetric] Inr False] by blast
      qed
    qed
  qed
qed


lemma createDeviceTransport_ok_gen:
  "replies w = None ## None ## None ## rs \<Longrightarrow>
   createDeviceTransport d w
   = ((Transport (Some (length (socks w))), None),
      w\<lparr>replies := rs, calls := calls w @ handshake d, socks := socks w @ [True]\<rparr>)"
  by (simp add: createDeviceTransport_def newTransport_def transport_Send_def
      transport_VerifyResponse_def io_call_def device_address_def handshake_def)

lemma List_sentinel:
  assumes "zero_DeviceFileInfo \<notin> set es"
  shows "Device_List d remotePath
       (w\<lparr>replies := None ## None ## None ## None ## None ## r ## rs,
           dents := map Inr es @ Inr zero_DeviceFileInfo # rest\<rparr>)
     = Some ((Some es, None),
         w\<lparr>replies := rs,
           calls := calls w @ handshake d @
             [Ev_CreateSyncTransport, Ev_SyncSend (str ''LIST'') remotePath] @
             replicate (Suc (length es)) Ev_ReadDirectoryEntry @ [Ev_SyncClose, Ev_Close],
           socks := socks w @ [False],
           dents := rest\<rparr>)"
  by (simp add: Device_List_def
      createDeviceTransport_ok_gen [where rs = "None ## None ## r ## rs"]
      transport_CreateSyncTransport_def List_body_def syncTransport_Send_def io_call_def
      transport_Close_def syncTransport_Close_def close_sock_def
      List_loop_sentinel [OF assms, where rest = rest])

lemma List_error:
  assumes "zero_DeviceFileInfo \<notin> set es"
  shows "Device_List d remotePath
       (w\<lparr>replies := None ## None ## None ## None ## None ## r ## rs,
           dents := map Inr es @ Inl err # rest\<rparr>)
     = Some ((Some es, Some err),
         w\<lparr>replies := rs,
           calls := calls w @ handshake d @
             [Ev_CreateSyncTransport, Ev_SyncSend (str ''LIST'') remotePath] @
             replicate (Suc (length es)) Ev_ReadDirectoryEntry @ [Ev_SyncClose, Ev_Close],
           socks := socks w @ [False],
           dents := rest\<rparr>)"
  by (simp add: Device_List_def
      createDeviceTransport_ok_gen [where rs = "None ## None ## r ## rs"]
      transport_CreateSyncTransport_def List_body_def syncTransport_Send_def io_call_def
      transport_Close_def syncTransport_Close_def close_sock_def
      List_loop_error [OF assms, where rest = rest and err = err])

lemma List_blocked:
  assumes "zero_DeviceFileInfo \<notin> set es"
  shows "Device_List d remotePath
       (w\<lparr>replies := None ## None ## None ## None ## None ## rs, dents := map Inr es\<rparr>)
     = None"
  by (simp add: Device_List_def
      createDeviceTransport_ok_gen [where rs = "None ## None ## rs"]
      transport_CreateSyncTransport_def List_body_def syncTransport_Send_def io_call_def
      transport_Close_def syncTransport_Close_def close_sock_def
      List_loop_blocked [OF assms])

lemma Device_List_no_sentinel:
  assumes "Device_List d remotePath w = Some ((Some xs, err), w')"
  shows "zero_DeviceFileInfo \<notin> set xs"
proof -
  from assms obtain sync w2 w3 where "List_loop sync [] w2 = Some ((Some xs, err), w3)"
    by (auto simp add: Device_List_def List_body_def
        split: prod.splits option.splits sum.splits)
  from List_loop_no_sentinel [OF this] show ?thesis
    by simp
qed


text \<open>
  C3. After the transport and the sync transport were created and \<open>LIST\<close> was sent,
  \<open>List\<close> appends the entries it reads until it reads the zero-valued entry, and
  then returns them without it and with no error; or until \<open>ReadDirectoryEntry\<close>
  returns an error, and then returns them with that error. As long as neither has
  arrived it does not return, however many entries it has read. A listing whose first
  result is the zero-valued entry returns the empty slice, not nil, and no error. In
  no world does a slice that \<open>List\<close> returns contain the zero-valued entry.
\<close>

theorem Device_List_until_sentinel:
  assumes "zero_DeviceFileInfo \<notin> set es"
  shows "Device_List d remotePath
       (w\<lparr>replies := None ## None ## None ## None ## None ## r ## rs,
           dents := map Inr es @ Inr zero_DeviceFileInfo # rest\<rparr>)
     = Some ((Some es, None),
         w\<lparr>replies := rs,
           calls := calls w @ handshake d @
             [Ev_CreateSyncTransport, Ev_SyncSend (str ''LIST'') remotePath] @
             replicate (Suc (length es)) Ev_ReadDirectoryEntry @ [Ev_SyncClose, Ev_Close],
           socks := socks w @ [False],
           dents := rest\<rparr>)
   \<and> Device_List d remotePath
       (w\<lparr>replies := None ## None ## None ## None ## None ## r ## rs,
           dents := map Inr es @ Inl err # rest\<rparr>)
     = Some ((Some es, Some err),
         w\<lparr>replies := rs,
           calls := calls w @ handshake d @
             [Ev_CreateSyncTransport, Ev_SyncSend (str ''LIST'') remotePath] @
             replicate (Suc (length es)) Ev_ReadDirectoryEntry @ [Ev_SyncClose, Ev_Close],
           socks := socks w @ [False],
           dents := rest\<rparr>)
   \<and> Device_List d remotePath
       (w\<lparr>replies := None ## None ## None ## None ## None ## rs, dents := map Inr es\<rparr>)
     = None
   \<and> Device_List d remotePath
       (w\<lparr>replies := None ## None ## None ## None ## None ## r ## rs,
           dents := Inr zero_DeviceFileInfo # rest\<rparr>)
     = Some ((Some [], None),
         w\<lparr>replies := rs,
           calls := calls w @ handshake d @
             [Ev_CreateSyncTransport, Ev_SyncSend (str ''LIST'') remotePath,
              Ev_ReadDirectoryEntry, Ev_SyncClose, Ev_Close],
           socks := socks w @ [False],
           dents := rest\<rparr>)
   \<and> (\<forall>xs err' w'. Device_List d remotePath w = Some ((Some xs, err'), w')
         \<longrightarrow> zero_DeviceFileInfo \<notin> set xs)"
proof -
  have e: "zero_DeviceFileInfo \<notin> set []"
    by simp
  have only: "Device_List d remotePath
       (w\<lparr>replies := None ## None ## None ## None ## None ## r ## rs,
           dents := Inr zero_DeviceFileInfo # rest\<rparr>)
     = Some ((Some [], None),
         w\<lparr>replies := rs,
           calls := calls w @ handshake d @
             [Ev_CreateSyncTransport, Ev_SyncSend (str ''LIST'') remotePath,
              Ev_ReadDirectoryEntry, Ev_SyncClose, Ev_Close],
           socks := socks w @ [False],
           dents := rest\<rparr>)"
    using List_sentinel [OF e, where d = d and remotePath = remotePath and w = w and r = r
        and rs = rs and rest = rest] by simp
  have never: "\<forall>xs err' w'. Device_List d remotePath w = Some ((Some xs, err'), w')
         \<longrightarrow> zero_DeviceFileInfo \<notin> set xs"
    using Device_List_no_sentinel by blast
  show ?thesis
    by (intro conjI List_sentinel [OF assms] List_error [OF assms] List_blocked [OF assms]
        only never)
qed

theorem Device_List_until_sentinel_witness:
  "zero_DeviceFileInfo \<notin> set [sdcard]
   \<and> Device_List emulator (str ''/'')
       (idle\<lparr>replies := None ## None ## None ## None ## None ## None ## sconst None,
           dents := map Inr [sdcard] @ Inr zero_DeviceFileInfo # [Inr sdcard]\<rparr>)
     = Some ((Some [sdcard], None),
         idle\<lparr>replies := sconst None,
           calls := calls idle @ handshake emulator @
             [Ev_CreateSyncTransport, Ev_SyncSend (str ''LIST'') (str ''/'')] @
             replicate (Suc (length [sdcard])) Ev_ReadDirectoryEntry @ [Ev_SyncClose, Ev_Close],
           socks := socks idle @ [False],
           dents := [Inr sdcard]\<rparr>)"
proof -
  have h: "zero_DeviceFileInfo \<notin> set [sdcard]"
    by (simp add: zero_DeviceFileInfo_def sdcard_def str_def)
  note t = Device_List_until_sentinel [OF h, where d = emulator and w = idle
      and remotePath = "str ''/''" and r = None and rs = "sconst None" and rest = "[Inr sdcard]"]
  show ?thesis
    using h t [THEN conjunct1] by blast
qed

section \<open>Listing the reverse forwards\<close>

lemma Fields_blank: "list_all isSpace s \<Longrightarrow> Fields s = []"
proof -
  assume "list_all isSpace s"
  then have e: "dropWhile isSpace s = []"
    by (simp add: list_all_iff)
  show ?thesis
    by (subst Fields.simps) (simp only: e list.case)
qed

lemma Fields_dropWhile: "Fields (dropWhile isSpace s) = Fields s"
  by (subst Fields.simps, subst (2) Fields.simps) (simp add: dropWhile_idem)

lemma takeWhile_append_blank:
  "list_all isSpace sp \<Longrightarrow>
   takeWhile (\<lambda>r. \<not> isSpace r) (t @ sp) = takeWhile (\<lambda>r. \<not> isSpace r) t"
  by (induction t) (cases sp, simp_all)

lemma dropWhile_append_blank:
  "list_all isSpace sp \<Longrightarrow>
   dropWhile (\<lambda>r. \<not> isSpace r) (t @ sp) = dropWhile (\<lambda>r. \<not> isSpace r) t @ sp"
  by (induction t) (cases sp, simp_all)

lemma Fields_append_blank:
  assumes sp: "list_all isSpace sp"
  shows "Fields (s @ sp) = Fields s"
proof (induction s rule: Fields.induct)
  case (1 s)
  show ?case
  proof (cases "dropWhile isSpace s")
    case Nil
    then have "list_all isSpace s"
      by (simp add: list_all_iff dropWhile_eq_Nil_conv)
    with sp have "list_all isSpace (s @ sp)"
      by simp
    then have "Fields (s @ sp) = []"
      by (rule Fields_blank)
    moreover have "Fields s = []"
      by (subst Fields.simps) (simp only: Nil list.case)
    ultimately show ?thesis
      by simp
  next
    case (Cons c t)
    then obtain x where x: "x \<in> set s" "\<not> isSpace x"
      by (metis dropWhile_eq_Nil_conv list.distinct(1))
    have "dropWhile isSpace (s @ sp) = dropWhile isSpace s @ sp"
      using x by (rule dropWhile_append1)
    then have d: "dropWhile isSpace (s @ sp) = c # t @ sp"
      by (simp only: Cons append_Cons)
    have "Fields (s @ sp)
        = (c # takeWhile (\<lambda>r. \<not> isSpace r) (t @ sp)) # Fields (dropWhile (\<lambda>r. \<not> isSpace r) (t @ sp))"
      using d by (subst Fields.simps) simp
    also have "\<dots> = (c # takeWhile (\<lambda>r. \<not> isSpace r) t) # Fields (dropWhile (\<lambda>r. \<not> isSpace r) t @ sp)"
      using sp by (simp add: takeWhile_append_blank dropWhile_append_blank)
    also have "\<dots> = (c # takeWhile (\<lambda>r. \<not> isSpace r) t) # Fields (dropWhile (\<lambda>r. \<not> isSpace r) t)"
      using "1.IH" [OF Cons] by simp
    also have "\<dots> = Fields s"
      using Cons by (subst (2) Fields.simps) simp
    finally show ?thesis .
  qed
qed

lemma Fields_TrimSpace: "Fields (TrimSpace l) = Fields l"
proof -
  let ?s = "dropWhile isSpace l"
  let ?sp = "rev (takeWhile isSpace (rev ?s))"
  have "TrimSpace l @ ?sp = rev (takeWhile isSpace (rev ?s) @ dropWhile isSpace (rev ?s))"
    by (simp only: TrimSpace_def rev_append)
  also have "\<dots> = rev (rev ?s)"
    by (simp only: takeWhile_dropWhile_id)
  also have "\<dots> = ?s"
    by (simp only: rev_rev_ident)
  finally have s: "?s = TrimSpace l @ ?sp"
    by (rule sym)
  have sp: "list_all isSpace ?sp"
    by (simp add: list_all_iff) (metis set_takeWhileD)
  have "Fields (TrimSpace l) = Fields (TrimSpace l @ ?sp)"
    using Fields_append_blank [OF sp] by simp
  also have "\<dots> = Fields ?s"
    using s by simp
  also have "\<dots> = Fields l"
    by (rule Fields_dropWhile)
  finally show ?thesis .
qed

lemma ReverseList_loop_lines:
  "ReverseList_loop ls acc = acc @ concat (map forward_of_line ls)"
proof (induction ls arbitrary: acc)
  case Nil
  show ?case by simp
next
  case (Cons l ls)
  show ?case
    by (simp add: Cons.IH Let_def Fields_TrimSpace forward_of_line_def)
qed


lemma filter_dropWhile_space:
  "filter (\<lambda>r. \<not> isSpace r) (dropWhile isSpace s) = filter (\<lambda>r. \<not> isSpace r) s"
  by (induction s) simp_all

lemma filter_takeWhile_same: "filter P (takeWhile P t) = takeWhile P t"
  by (induction t) simp_all

lemma filter_split_run:
  "filter P t = takeWhile P t @ filter P (dropWhile P t)"
proof -
  have "filter P t = filter P (takeWhile P t @ dropWhile P t)"
    by (simp only: takeWhile_dropWhile_id)
  then show ?thesis
    by (simp only: filter_append filter_takeWhile_same)
qed

lemma head_not_space: "dropWhile isSpace s = c # t \<Longrightarrow> \<not> isSpace c"
  using hd_dropWhile [of isSpace s] by simp

lemma concat_Fields: "concat (Fields s) = filter (\<lambda>r. \<not> isSpace r) s"
proof (induction s rule: Fields.induct)
  case (1 s)
  show ?case
  proof (cases "dropWhile isSpace s")
    case Nil
    have "filter (\<lambda>r. \<not> isSpace r) s = filter (\<lambda>r. \<not> isSpace r) (dropWhile isSpace s)"
      by (simp only: filter_dropWhile_space)
    then have "filter (\<lambda>r. \<not> isSpace r) s = []"
      by (simp only: Nil filter.simps)
    moreover have "Fields s = []"
      by (subst Fields.simps) (simp only: Nil list.case)
    ultimately show ?thesis
      by simp
  next
    case (Cons c t)
    have c: "\<not> isSpace c"
      using Cons by (rule head_not_space)
    have f: "Fields s = (c # takeWhile (\<lambda>r. \<not> isSpace r) t) # Fields (dropWhile (\<lambda>r. \<not> isSpace r) t)"
      by (subst Fields.simps) (simp only: Cons list.case)
    have "filter (\<lambda>r. \<not> isSpace r) s = filter (\<lambda>r. \<not> isSpace r) (c # t)"
      using filter_dropWhile_space [of s] by (simp only: Cons)
    also have "\<dots> = c # filter (\<lambda>r. \<not> isSpace r) t"
      using c by simp
    also have "\<dots> = c # takeWhile (\<lambda>r. \<not> isSpace r) t
          @ filter (\<lambda>r. \<not> isSpace r) (dropWhile (\<lambda>r. \<not> isSpace r) t)"
      using filter_split_run [of "\<lambda>r. \<not> isSpace r" t] by simp
    also have "\<dots> = concat (Fields s)"
      using "1.IH" [OF Cons] by (simp add: f)
    finally show ?thesis
      by (rule sym)
  qed
qed

lemma Fields_nonempty_nonspace:
  "list_all (\<lambda>f. f \<noteq> [] \<and> list_all (\<lambda>r. \<not> isSpace r) f) (Fields s)"
proof (induction s rule: Fields.induct)
  case (1 s)
  show ?case
  proof (cases "dropWhile isSpace s")
    case Nil
    have "Fields s = []"
      by (subst Fields.simps) (simp only: Nil list.case)
    then show ?thesis
      by simp
  next
    case (Cons c t)
    have c: "\<not> isSpace c"
      using Cons by (rule head_not_space)
    have f: "Fields s = (c # takeWhile (\<lambda>r. \<not> isSpace r) t) # Fields (dropWhile (\<lambda>r. \<not> isSpace r) t)"
      by (subst Fields.simps) (simp only: Cons list.case)
    have "list_all (\<lambda>r. \<not> isSpace r) (takeWhile (\<lambda>r. \<not> isSpace r) t)"
      by (simp add: list_all_iff) (metis set_takeWhileD)
    then show ?thesis
      using c "1.IH" [OF Cons] by (simp add: f)
  qed
qed

lemma ReverseList_run:
  "Device_ReverseList d
     (w\<lparr>replies := None ## None ## None ## None ## None ## None ## r ## rs, rx := raw\<rparr>)
   = ((Some (concat (map forward_of_line (Split (case raw of None \<Rightarrow> [] | Some b \<Rightarrow> b) 10))), None),
      w\<lparr>replies := rs,
        calls := calls w @ handshake d @
          [Ev_Send (str ''reverse:list-forward''), Ev_VerifyResponse, Ev_ReadBytesAll, Ev_Close],
        socks := socks w @ [False],
        rx := raw\<rparr>)"
  by (simp add: Device_ReverseList_def executeCommand_def executeCommand_body_def Let_def
      createDeviceTransport_ok_gen [where rs = "None ## None ## None ## r ## rs"]
      transport_Send_def transport_VerifyResponse_def transport_ReadBytesAll_def io_call_def
      transport_Close_def close_sock_def ReverseList_loop_lines)

lemma Fields_Nil: "Fields [] = []"
  by (subst Fields.simps) simp

lemma Fields_Cons_space: "isSpace c \<Longrightarrow> Fields (c # s) = Fields s"
  by (subst Fields.simps, subst (2) Fields.simps) simp

lemma Fields_Cons_field:
  "\<not> isSpace c \<Longrightarrow>
   Fields (c # s) = (c # takeWhile (\<lambda>r. \<not> isSpace r) s) # Fields (dropWhile (\<lambda>r. \<not> isSpace r) s)"
  by (subst Fields.simps) simp

lemma forward_of_line_ex1: "forward_of_line (str ''host tcp:1 tcp:2'')
   = [\<lparr>Serial = str ''host'', Local = str ''tcp:1'', Remote = str ''tcp:2''\<rparr>]"
  by (simp add: forward_of_line_def str_def TrimSpace_def isSpace_def
      Fields_Nil Fields_Cons_space Fields_Cons_field)

lemma forward_of_line_ex2: "forward_of_line (str ''A B C D'')
   = [\<lparr>Serial = str ''A'', Local = str ''B'', Remote = str ''C''\<rparr>]"
  by (simp add: forward_of_line_def str_def TrimSpace_def isSpace_def
      Fields_Nil Fields_Cons_space Fields_Cons_field)

lemma forward_of_line_ex3: "forward_of_line (str ''  x '' @ [13]) = []"
  by (simp add: forward_of_line_def str_def TrimSpace_def isSpace_def
      Fields_Nil Fields_Cons_space Fields_Cons_field)

lemma forward_of_line_ex4: "forward_of_line [] = []"
  by (simp add: forward_of_line_def TrimSpace_def)

lemma Split_not_Nil: "Split s sep \<noteq> []"
  by (induction s) (auto split: list.splits)

lemma Join_Cons_Cons: "Join ((x # l) # ls) sep = x # Join (l # ls) sep"
  by (cases ls) simp_all

lemma Join_Nil_Cons: "ls \<noteq> [] \<Longrightarrow> Join ([] # ls) sep = sep @ Join ls sep"
  by (cases ls) simp_all

lemma Join_Split: "Join (Split s sep) [sep] = s"
proof (induction s)
  case Nil
  show ?case by simp
next
  case (Cons x xs)
  show ?case
  proof (cases "x = sep")
    case True
    then show ?thesis
      using Cons.IH by (simp add: Join_Nil_Cons Split_not_Nil)
  next
    case False
    obtain l ls where s: "Split xs sep = l # ls"
      using Split_not_Nil [of xs sep] by (cases "Split xs sep") auto
    show ?thesis
      using False Cons.IH by (simp add: s Join_Cons_Cons)
  qed
qed

lemma Split_pieces: "list_all (\<lambda>p. sep \<notin> set p) (Split s sep)"
proof (induction s)
  case Nil
  show ?case by simp
next
  case (Cons x xs)
  show ?case
  proof (cases "x = sep")
    case True
    then show ?thesis
      using Cons.IH by simp
  next
    case False
    obtain l ls where s: "Split xs sep = l # ls"
      using Split_not_Nil [of xs sep] by (cases "Split xs sep") auto
    show ?thesis
      using False Cons.IH by (simp add: s)
  qed
qed

text \<open>
  C8. When the command succeeds, \<open>ReverseList\<close> returns, for the response split at
  the newlines, what each line contributes, in the order of the lines: nothing for a
  line that is empty after trimming or has fewer than two fields, the serial "host" with
  the two fields of a line of exactly two, the first three fields of a line of three or
  more. The fields of a line are non-empty, free of white space, and together all the
  runes of the line that are not white space; the lines joined by newlines are the
  response, and no line contains a newline.
\<close>

theorem ReverseList_parses_lines:
  "Device_ReverseList d
     (w\<lparr>replies := None ## None ## None ## None ## None ## None ## r ## rs, rx := raw\<rparr>)
   = ((Some (concat (map forward_of_line (Split (case raw of None \<Rightarrow> [] | Some b \<Rightarrow> b) 10))), None),
      w\<lparr>replies := rs,
        calls := calls w @ handshake d @
          [Ev_Send (str ''reverse:list-forward''), Ev_VerifyResponse, Ev_ReadBytesAll, Ev_Close],
        socks := socks w @ [False],
        rx := raw\<rparr>)
   \<and> forward_of_line l =
     (if TrimSpace l = [] \<or> length (Fields l) < 2 then []
      else if length (Fields l) = 2 then
        [\<lparr>Serial = str ''host'', Local = Fields l ! 0, Remote = Fields l ! 1\<rparr>]
      else [\<lparr>Serial = Fields l ! 0, Local = Fields l ! 1, Remote = Fields l ! 2\<rparr>])
   \<and> concat (Fields l) = filter (\<lambda>r. \<not> isSpace r) l
   \<and> list_all (\<lambda>f. f \<noteq> [] \<and> list_all (\<lambda>r. \<not> isSpace r) f) (Fields l)
   \<and> Join (Split s 10) [10] = s
   \<and> list_all (\<lambda>p. 10 \<notin> set p) (Split s 10)
   \<and> forward_of_line (str ''host tcp:1 tcp:2'')
     = [\<lparr>Serial = str ''host'', Local = str ''tcp:1'', Remote = str ''tcp:2''\<rparr>]
   \<and> forward_of_line (str ''A B C D'')
     = [\<lparr>Serial = str ''A'', Local = str ''B'', Remote = str ''C''\<rparr>]
   \<and> forward_of_line (str ''  x '' @ [13]) = []
   \<and> forward_of_line [] = []"
  by (intro conjI ReverseList_run forward_of_line_def concat_Fields Fields_nonempty_nonspace
      Join_Split Split_pieces forward_of_line_ex1 forward_of_line_ex2 forward_of_line_ex3 forward_of_line_ex4)

end
